theory Spec2Isabelle
  imports Complex_Main
begin

section \<open>Backtesting framework: values, errors and library operations\<close>

text \<open>
  The development embeds \<^verbatim>\<open>src/backtest_models.py\<close>. Finite floating-point values are
  idealised as real numbers (no rounding, no overflow); the special values that numpy produces
  where the reals have no answer (division by zero, the mean of an empty array) are kept as
  separate constructors, so that a computation that silently yields \<^verbatim>\<open>inf\<close> or \<^verbatim>\<open>nan\<close> is visible
  in the model. Zero is unsigned. Input series hold finite values and are lists of reals.
  The module silences every warning (\<^verbatim>\<open>warnings.filterwarnings('ignore')\<close>), so a numpy
  or sklearn warning has no effect and is not modelled. Printing is not modelled.
\<close>

datatype error = ValueError | IndexError

datatype npfloat = Fin real | PosInf | NegInf | NaN

fun is_finite :: "npfloat \<Rightarrow> bool" where
  "is_finite (Fin _) = True"
| "is_finite _ = False"

fun fneg :: "npfloat \<Rightarrow> npfloat" where
  "fneg (Fin a) = Fin (- a)"
| "fneg PosInf = NegInf"
| "fneg NegInf = PosInf"
| "fneg NaN = NaN"

fun fadd :: "npfloat \<Rightarrow> npfloat \<Rightarrow> npfloat" where
  "fadd NaN _ = NaN"
| "fadd _ NaN = NaN"
| "fadd (Fin a) (Fin b) = Fin (a + b)"
| "fadd PosInf NegInf = NaN"
| "fadd NegInf PosInf = NaN"
| "fadd PosInf _ = PosInf"
| "fadd _ PosInf = PosInf"
| "fadd NegInf _ = NegInf"
| "fadd _ NegInf = NegInf"

definition fsub :: "npfloat \<Rightarrow> npfloat \<Rightarrow> npfloat" where
  "fsub a b = fadd a (fneg b)"

fun fmul :: "npfloat \<Rightarrow> npfloat \<Rightarrow> npfloat" where
  "fmul NaN _ = NaN"
| "fmul _ NaN = NaN"
| "fmul (Fin a) (Fin b) = Fin (a * b)"
| "fmul (Fin a) PosInf = (if a = 0 then NaN else if 0 < a then PosInf else NegInf)"
| "fmul (Fin a) NegInf = (if a = 0 then NaN else if 0 < a then NegInf else PosInf)"
| "fmul PosInf (Fin b) = (if b = 0 then NaN else if 0 < b then PosInf else NegInf)"
| "fmul NegInf (Fin b) = (if b = 0 then NaN else if 0 < b then NegInf else PosInf)"
| "fmul PosInf PosInf = PosInf"
| "fmul PosInf NegInf = NegInf"
| "fmul NegInf PosInf = NegInf"
| "fmul NegInf NegInf = PosInf"

fun fdiv :: "npfloat \<Rightarrow> npfloat \<Rightarrow> npfloat" where
  "fdiv NaN _ = NaN"
| "fdiv _ NaN = NaN"
| "fdiv (Fin a) (Fin b) =
     (if b \<noteq> 0 then Fin (a / b)
      else if a = 0 then NaN
      else if 0 < a then PosInf else NegInf)"
| "fdiv (Fin a) PosInf = Fin 0"
| "fdiv (Fin a) NegInf = Fin 0"
| "fdiv PosInf (Fin b) = (if 0 \<le> b then PosInf else NegInf)"
| "fdiv NegInf (Fin b) = (if 0 \<le> b then NegInf else PosInf)"
| "fdiv PosInf PosInf = NaN"
| "fdiv PosInf NegInf = NaN"
| "fdiv NegInf PosInf = NaN"
| "fdiv NegInf NegInf = NaN"

fun fabs :: "npfloat \<Rightarrow> npfloat" where
  "fabs (Fin a) = Fin \<bar>a\<bar>"
| "fabs PosInf = PosInf"
| "fabs NegInf = PosInf"
| "fabs NaN = NaN"

subsection \<open>numpy\<close>

primrec np_sum :: "npfloat list \<Rightarrow> npfloat" where
  "np_sum [] = Fin 0"
| "np_sum (x # xs) = fadd x (np_sum xs)"

definition np_mean :: "npfloat list \<Rightarrow> npfloat" where
  \<comment> \<open>\<^verbatim>\<open>np.mean\<close>: the sum over the count; on an empty array \<^verbatim>\<open>0.0 / 0\<close>, that is \<^verbatim>\<open>nan\<close>.\<close>
  "np_mean xs = fdiv (np_sum xs) (Fin (real (length xs)))"

definition np_std :: "real list \<Rightarrow> npfloat" where
  \<comment> \<open>\<^verbatim>\<open>np.std\<close> with its default \<^verbatim>\<open>ddof=0\<close>:
      \<^verbatim>\<open>sqrt(mean(abs(x - x.mean())**2))\<close>; \<^verbatim>\<open>nan\<close> on an empty array.\<close>
  "np_std xs =
     (if xs = [] then NaN
      else let m = sum_list xs / real (length xs)
           in Fin (sqrt (sum_list (map (\<lambda>x. \<bar>x - m\<bar>\<^sup>2) xs) / real (length xs))))"

definition np_diff :: "real list \<Rightarrow> real list" where
  \<comment> \<open>\<^verbatim>\<open>np.diff\<close>: \<^verbatim>\<open>a[1:] - a[:-1]\<close>.\<close>
  "np_diff xs = map2 (\<lambda>a b. b - a) xs (tl xs)"

definition np_subtract :: "real list \<Rightarrow> real list \<Rightarrow> error + real list" where
  \<comment> \<open>\<^verbatim>\<open>a - b\<close> on one-dimensional arrays: elementwise on equal shapes, a one-element
      array is broadcast, any other pair of shapes raises \<^verbatim>\<open>ValueError\<close>.\<close>
  "np_subtract a b =
     (if length a = length b then Inr (map2 (\<lambda>x y. x - y) a b)
      else if length b = 1 then Inr (map (\<lambda>x. x - hd b) a)
      else if length a = 1 then Inr (map (\<lambda>y. hd a - y) b)
      else Inl ValueError)"

primrec np_take :: "'a list \<Rightarrow> nat list \<Rightarrow> error + 'a list" where
  \<comment> \<open>\<^verbatim>\<open>a[idx]\<close> with an array of non-negative indices.\<close>
  "np_take a [] = Inr []"
| "np_take a (i # is) =
     (if i < length a
      then (case np_take a is of Inl e \<Rightarrow> Inl e | Inr ys \<Rightarrow> Inr (a ! i # ys))
      else Inl IndexError)"

subsection \<open>Python indexing\<close>

definition py_getitem :: "'a list \<Rightarrow> int \<Rightarrow> error + 'a" where
  \<comment> \<open>\<^verbatim>\<open>a[i]\<close>: a negative index counts from the end.\<close>
  "py_getitem a i =
     (let n = int (length a); j = (if i < 0 then i + n else i)
      in if 0 \<le> j \<and> j < n then Inr (a ! nat j) else Inl IndexError)"

definition slice_bound :: "nat \<Rightarrow> int \<Rightarrow> nat" where
  "slice_bound n i = (if i < 0 then nat (max (i + int n) 0) else min (nat i) n)"

definition py_slice :: "'a list \<Rightarrow> int \<Rightarrow> int \<Rightarrow> 'a list" where
  \<comment> \<open>\<^verbatim>\<open>a[lo:hi]\<close>: both bounds are clipped to the array, never an error.\<close>
  "py_slice a lo hi =
     (let l = slice_bound (length a) lo; h = slice_bound (length a) hi
      in take (h - l) (drop l a))"

subsection \<open>sklearn: scaler, regressor, metrics\<close>

record MinMaxScaler =
  sc_data_min :: real
  sc_data_max :: real
  sc_data_range :: real
  sc_scale :: real
  sc_min :: real

definition MinMaxScaler_fit :: "real list \<Rightarrow> error + MinMaxScaler" where
  \<comment> \<open>\<^verbatim>\<open>MinMaxScaler().fit\<close> on one feature column, feature range (0, 1): an empty column
      is rejected; a zero data range is replaced by 1 before inverting.\<close>
  "MinMaxScaler_fit X =
     (if X = [] then Inl ValueError
      else let dmin = Min (set X); dmax = Max (set X); rng = dmax - dmin;
               sc = 1 / (if rng = 0 then 1 else rng)
           in Inr \<lparr>sc_data_min = dmin, sc_data_max = dmax, sc_data_range = rng,
                   sc_scale = sc, sc_min = 0 - dmin * sc\<rparr>)"

definition MinMaxScaler_transform :: "MinMaxScaler \<Rightarrow> real list \<Rightarrow> real list" where
  \<comment> \<open>\<^verbatim>\<open>transform\<close> (\<^verbatim>\<open>clip=False\<close>): \<^verbatim>\<open>X * scale + min\<close>; the scaler is not changed.\<close>
  "MinMaxScaler_transform s X = map (\<lambda>x. x * sc_scale s + sc_min s) X"

text \<open>
  The support-vector regressor is library code and is a parameter of the model: fitting on a
  scaled feature column and a target column gives a function from one scaled feature value to
  one predicted target (\<^verbatim>\<open>predict\<close> works row by row). \<^verbatim>\<open>fit\<close> rejects columns of
  different lengths.
\<close>

type_synonym regressor = "real list \<Rightarrow> real list \<Rightarrow> real \<Rightarrow> real"

definition SVR_fit :: "regressor \<Rightarrow> real list \<Rightarrow> real list \<Rightarrow> error + (real \<Rightarrow> real)" where
  "SVR_fit svr X y = (if length X \<noteq> length y \<or> X = [] then Inl ValueError else Inr (svr X y))"

definition check_reg_targets :: "real list \<Rightarrow> real list \<Rightarrow> bool" where
  \<comment> \<open>The input validation shared by the sklearn regression metrics: equal lengths, at
      least one sample; otherwise \<^verbatim>\<open>ValueError\<close>.\<close>
  "check_reg_targets y_true y_pred \<longleftrightarrow> length y_true = length y_pred \<and> y_true \<noteq> []"

definition mean_squared_error :: "real list \<Rightarrow> real list \<Rightarrow> error + real" where
  "mean_squared_error y_true y_pred =
     (if check_reg_targets y_true y_pred
      then Inr (sum_list (map2 (\<lambda>t p. (t - p)\<^sup>2) y_true y_pred) / real (length y_true))
      else Inl ValueError)"

definition mean_absolute_error :: "real list \<Rightarrow> real list \<Rightarrow> error + real" where
  "mean_absolute_error y_true y_pred =
     (if check_reg_targets y_true y_pred
      then Inr (sum_list (map2 (\<lambda>t p. \<bar>p - t\<bar>) y_true y_pred) / real (length y_true))
      else Inl ValueError)"

definition r2_score :: "real list \<Rightarrow> real list \<Rightarrow> error + npfloat" where
  \<comment> \<open>\<^verbatim>\<open>sklearn.metrics.r2_score\<close> with its defaults: \<^verbatim>\<open>nan\<close> on fewer than two samples;
      on a zero total sum of squares the score is forced to 1.0 for a perfect prediction and
      to 0.0 otherwise.\<close>
  "r2_score y_true y_pred =
     (if \<not> check_reg_targets y_true y_pred then Inl ValueError
      else if length y_pred < 2 then Inr NaN
      else let numerator = sum_list (map2 (\<lambda>t p. (t - p)\<^sup>2) y_true y_pred);
               avg = sum_list y_true / real (length y_true);
               denominator = sum_list (map (\<lambda>t. (t - avg)\<^sup>2) y_true)
           in if denominator \<noteq> 0 then Inr (Fin (1 - numerator / denominator))
              else if numerator \<noteq> 0 then Inr (Fin 0)
              else Inr (Fin 1))"

record metric_bundle =
  rmse :: real
  mae :: real
  r2 :: npfloat
  mape :: npfloat

definition mape_percent :: "real list \<Rightarrow> real list \<Rightarrow> npfloat" where
  \<comment> \<open>\<^verbatim>\<open>np.mean(np.abs((y_true - y_pred) / y_true)) * 100\<close>, on arrays of equal length
      (both call sites come after an sklearn metric that has rejected any other pair).\<close>
  "mape_percent y_true y_pred =
     fmul (np_mean (map fabs (map2 (\<lambda>t p. fdiv (Fin (t - p)) (Fin t)) y_true y_pred))) (Fin 100)"

definition scaled_fit_predict ::
    "regressor \<Rightarrow> real list \<Rightarrow> real list \<Rightarrow> real list \<Rightarrow> error + real list" where
  \<comment> \<open>Lines 48 to 58 and lines 126 to 135, the same statements in both functions: a new
      scaler is fitted on \<^verbatim>\<open>X_train\<close> and transforms \<^verbatim>\<open>X_train\<close> and \<^verbatim>\<open>X_test\<close>; a new
      regressor is fitted on the scaled training column and \<^verbatim>\<open>y_train\<close> and predicts the
      scaled test column.\<close>
  "scaled_fit_predict svr X_train y_train X_test =
     (case MinMaxScaler_fit X_train of
        Inl e \<Rightarrow> Inl e
      | Inr scaler \<Rightarrow>
          (let X_train_scaled = MinMaxScaler_transform scaler X_train;
               X_test_scaled = MinMaxScaler_transform scaler X_test
           in case SVR_fit svr X_train_scaled y_train of
                Inl e \<Rightarrow> Inl e
              | Inr model \<Rightarrow> Inr (map model X_test_scaled)))"

section \<open>Walk-forward validation\<close>

record wf_metrics = metric_bundle +
  directional_accuracy :: npfloat

definition py_range :: "int \<Rightarrow> int \<Rightarrow> int list" where
  \<comment> \<open>\<^verbatim>\<open>range(a, b)\<close>\<close>
  "py_range a b = [a..b - 1]"

definition wf_step :: "regressor \<Rightarrow> real list \<Rightarrow> real list \<Rightarrow> int \<Rightarrow> int \<Rightarrow> error + real \<times> real" where
  \<comment> \<open>The body of the loop of \<^verbatim>\<open>walk_forward_validation\<close> at index \<open>i\<close>: the pair
      \<^verbatim>\<open>(y_pred, y_test)\<close> that is appended.\<close>
  "wf_step svr demand_data prices window_size i =
     (let X_train = py_slice demand_data (i - window_size) i;
          y_train = py_slice prices (i - window_size) i
      in case py_getitem demand_data i of Inl e \<Rightarrow> Inl e | Inr x_i \<Rightarrow>
         (case py_getitem prices i of Inl e \<Rightarrow> Inl e | Inr y_test \<Rightarrow>
         (case scaled_fit_predict svr X_train y_train [x_i] of Inl e \<Rightarrow> Inl e | Inr y_pred \<Rightarrow>
            Inr (hd y_pred, y_test))))"

fun wf_loop :: "regressor \<Rightarrow> real list \<Rightarrow> real list \<Rightarrow> int \<Rightarrow> int list \<Rightarrow>
    real list \<times> real list \<Rightarrow> error + real list \<times> real list" where
  "wf_loop svr demand_data prices window_size [] acc = Inr acc"
| "wf_loop svr demand_data prices window_size (i # is) (predictions, actuals) =
     (case wf_step svr demand_data prices window_size i of
        Inl e \<Rightarrow> Inl e
      | Inr (y_pred, y_test) \<Rightarrow>
          wf_loop svr demand_data prices window_size is
            (predictions @ [y_pred], actuals @ [y_test]))"

definition directional_accuracy_percent :: "real list \<Rightarrow> real list \<Rightarrow> npfloat" where
  \<comment> \<open>Lines 156 to 158: \<^verbatim>\<open>np.mean((np.diff(actuals) > 0) == (np.diff(predictions) > 0)) * 100\<close>.\<close>
  "directional_accuracy_percent actuals predictions =
     (let changes_actual = np_diff actuals;
          changes_pred = np_diff predictions
      in fmul (np_mean (map2 (\<lambda>a p. Fin (if (a > 0) = (p > 0) then 1 else 0))
                 changes_actual changes_pred)) (Fin 100))"

definition wf_compute_metrics :: "real list \<Rightarrow> real list \<Rightarrow> error + wf_metrics" where
  \<comment> \<open>Lines 143 to 168: the metrics over the accumulated predictions and actuals.\<close>
  "wf_compute_metrics predictions actuals =
     (case mean_squared_error actuals predictions of Inl e \<Rightarrow> Inl e | Inr mse \<Rightarrow>
     (case mean_absolute_error actuals predictions of Inl e \<Rightarrow> Inl e | Inr mae' \<Rightarrow>
     (case r2_score actuals predictions of Inl e \<Rightarrow> Inl e | Inr r2' \<Rightarrow>
        Inr \<lparr>rmse = sqrt mse, mae = mae', r2 = r2',
             mape = mape_percent actuals predictions,
             directional_accuracy = directional_accuracy_percent actuals predictions\<rparr>)))"

definition walk_forward_validation ::
    "regressor \<Rightarrow> real list \<Rightarrow> real list \<Rightarrow> int \<Rightarrow> error + real list \<times> real list \<times> wf_metrics" where
  "walk_forward_validation svr demand_data prices window_size =
     (case wf_loop svr demand_data prices window_size
             (py_range window_size (int (length demand_data))) ([], []) of
        Inl e \<Rightarrow> Inl e
      | Inr (predictions, actuals) \<Rightarrow>
          (case wf_compute_metrics predictions actuals of
             Inl e \<Rightarrow> Inl e
           | Inr metrics \<Rightarrow> Inr (predictions, actuals, metrics)))"

section \<open>Time-series cross-validation\<close>

definition py_range_step :: "nat \<Rightarrow> nat \<Rightarrow> nat \<Rightarrow> error + nat list" where
  \<comment> \<open>\<^verbatim>\<open>range(start, stop, step)\<close> on non-negative arguments; a zero step raises.\<close>
  "py_range_step start stop step =
     (if step = 0 then Inl ValueError
      else Inr (map (\<lambda>j. start + j * step) [0..<(stop - start + step - 1) div step]))"

definition TimeSeriesSplit_split :: "int \<Rightarrow> nat \<Rightarrow> error + (nat list \<times> nat list) list" where
  \<comment> \<open>\<^verbatim>\<open>TimeSeriesSplit(n_splits=n_splits).split(X)\<close> with \<^verbatim>\<open>gap=0\<close>, no \<^verbatim>\<open>test_size\<close> and no
      \<^verbatim>\<open>max_train_size\<close>, on \<open>n_samples\<close> samples: the constructor rejects fewer than two
      splits, the generator rejects more folds than samples.\<close>
  "TimeSeriesSplit_split n_splits n_samples =
     (if n_splits \<le> 1 then Inl ValueError
      else let k = nat n_splits; n_folds = k + 1; test_sz = n_samples div n_folds
           in if n_folds > n_samples then Inl ValueError
              else if int n_samples - int (test_sz * k) \<le> 0 then Inl ValueError
              else (case py_range_step (n_samples - k * test_sz) n_samples test_sz of
                      Inl e \<Rightarrow> Inl e
                    | Inr test_starts \<Rightarrow>
                        Inr (map (\<lambda>test_start.
                               ([0..<min test_start n_samples],
                                [min test_start n_samples..<min (test_start + test_sz) n_samples]))
                             test_starts)))"

record fold_result = metric_bundle +
  fold :: nat
  train_size :: nat
  test_size :: nat

definition cv_fold ::
    "regressor \<Rightarrow> real list \<Rightarrow> real list \<Rightarrow> nat \<Rightarrow> nat list \<times> nat list \<Rightarrow> error + fold_result" where
  \<comment> \<open>The body of the loop of \<^verbatim>\<open>time_series_cross_validation\<close>: the row that is appended.\<close>
  "cv_fold svr X y fold_no split =
     (case split of (train_idx, test_idx) \<Rightarrow>
     (case np_take X train_idx of Inl e \<Rightarrow> Inl e | Inr X_train \<Rightarrow>
     (case np_take X test_idx of Inl e \<Rightarrow> Inl e | Inr X_test \<Rightarrow>
     (case np_take y train_idx of Inl e \<Rightarrow> Inl e | Inr y_train \<Rightarrow>
     (case np_take y test_idx of Inl e \<Rightarrow> Inl e | Inr y_test \<Rightarrow>
     (case scaled_fit_predict svr X_train y_train X_test of Inl e \<Rightarrow> Inl e | Inr y_pred \<Rightarrow>
     (case mean_squared_error y_test y_pred of Inl e \<Rightarrow> Inl e | Inr mse \<Rightarrow>
     (case mean_absolute_error y_test y_pred of Inl e \<Rightarrow> Inl e | Inr mae' \<Rightarrow>
     (case r2_score y_test y_pred of Inl e \<Rightarrow> Inl e | Inr r2' \<Rightarrow>
        Inr \<lparr>rmse = sqrt mse, mae = mae', r2 = r2',
             mape = mape_percent y_test y_pred,
             fold = fold_no, train_size = length train_idx,
             test_size = length test_idx\<rparr>)))))))))"

fun cv_loop :: "regressor \<Rightarrow> real list \<Rightarrow> real list \<Rightarrow> nat \<Rightarrow> (nat list \<times> nat list) list \<Rightarrow>
    fold_result list \<Rightarrow> error + fold_result list" where
  "cv_loop svr X y fold_no [] fold_results = Inr fold_results"
| "cv_loop svr X y fold_no (split # splits) fold_results =
     (case cv_fold svr X y fold_no split of
        Inl e \<Rightarrow> Inl e
      | Inr row \<Rightarrow> cv_loop svr X y (fold_no + 1) splits (fold_results @ [row]))"

definition time_series_cross_validation ::
    "regressor \<Rightarrow> real list \<Rightarrow> real list \<Rightarrow> int \<Rightarrow> error + fold_result list" where
  \<comment> \<open>The rows of the returned table, in fold order (\<^verbatim>\<open>enumerate(tscv.split(X), 1)\<close>).\<close>
  "time_series_cross_validation svr X y n_splits =
     (case TimeSeriesSplit_split n_splits (length X) of
        Inl e \<Rightarrow> Inl e
      | Inr splits \<Rightarrow> cv_loop svr X y 1 splits [])"

section \<open>Confidence intervals\<close>

text \<open>
  The standard-normal quantile function \<^verbatim>\<open>scipy.stats.norm.ppf\<close> is library code and is a
  parameter of the model.
\<close>

type_synonym quantile_fn = "real \<Rightarrow> npfloat"

record ci_result =
  se :: npfloat
  margin :: npfloat
  retail_point :: npfloat
  retail_lower :: npfloat
  retail_upper :: npfloat

record ci_locals = ci_result +
  z_score :: npfloat
  base_prediction_2035 :: npfloat
  lower_bound :: npfloat
  upper_bound :: npfloat
  bill_point :: npfloat
  bill_lower :: npfloat
  bill_upper :: npfloat

definition retail_multiplier :: real where "retail_multiplier = 35 / 10"
definition retail_base_cost :: real where "retail_base_cost = 5 / 100"
definition kwh_per_month :: real where "kwh_per_month = 1000"

definition to_retail :: "npfloat \<Rightarrow> npfloat" where
  \<comment> \<open>\<^verbatim>\<open>(v / 1000) * retail_multiplier + retail_base_cost\<close>\<close>
  "to_retail v = fadd (fmul (fdiv v (Fin 1000)) (Fin retail_multiplier)) (Fin retail_base_cost)"

definition ci_body :: "quantile_fn \<Rightarrow> real list \<Rightarrow> real list \<Rightarrow> real \<Rightarrow> error + ci_locals" where
  \<comment> \<open>The body of \<^verbatim>\<open>calculate_confidence_intervals\<close>: every local variable it assigns.\<close>
  "ci_body ppf predictions actuals confidence =
     (case np_subtract actuals predictions of
        Inl e \<Rightarrow> Inl e
      | Inr residuals \<Rightarrow>
          (let se' = np_std residuals;
               z = ppf ((1 + confidence) / 2);
               margin' = fmul z se';
               base = Fin (10098 / 100);
               lower = fsub base margin';
               upper = fadd base margin';
               rpoint = to_retail base;
               rlower = to_retail lower;
               rupper = to_retail upper
           in Inr \<lparr>se = se', margin = margin',
                   retail_point = rpoint, retail_lower = rlower, retail_upper = rupper,
                   z_score = z, base_prediction_2035 = base,
                   lower_bound = lower, upper_bound = upper,
                   bill_point = fmul rpoint (Fin kwh_per_month),
                   bill_lower = fmul rlower (Fin kwh_per_month),
                   bill_upper = fmul rupper (Fin kwh_per_month)\<rparr>))"

definition calculate_confidence_intervals ::
    "quantile_fn \<Rightarrow> real list \<Rightarrow> real list \<Rightarrow> real \<Rightarrow> error + ci_result" where
  \<comment> \<open>The returned dictionary: \<^verbatim>\<open>se\<close>, \<^verbatim>\<open>margin\<close>, \<^verbatim>\<open>retail_point\<close>, \<^verbatim>\<open>retail_lower\<close>,
      \<^verbatim>\<open>retail_upper\<close>.\<close>
  "calculate_confidence_intervals ppf predictions actuals confidence =
     (case ci_body ppf predictions actuals confidence of
        Inl e \<Rightarrow> Inl e
      | Inr v \<Rightarrow> Inr \<lparr>se = se v, margin = margin v, retail_point = retail_point v,
                       retail_lower = retail_lower v, retail_upper = retail_upper v\<rparr>)"

subsection \<open>Sample collaborators for evaluating the runs on concrete inputs\<close>

definition mean_regressor :: regressor where
  \<comment> \<open>A regressor that predicts the mean of its training targets.\<close>
  "mean_regressor X y = (\<lambda>x. sum_list y / real (length y))"

definition ppf_table :: quantile_fn where
  \<comment> \<open>The standard-normal quantile at the levels of the usual two-sided intervals
      (90, 95 and 99 per cent), to two decimals; 0 at the median.\<close>
  "ppf_table q =
     (if q = 95 / 100 then Fin (164 / 100)
      else if q = 975 / 1000 then Fin (196 / 100)
      else if q = 995 / 1000 then Fin (258 / 100)
      else if q = 1 / 2 then Fin 0
      else NaN)"

section \<open>Specification-level definitions\<close>

text \<open>
  The definitions of this section follow the wording of the specification, not the code; the
  theorems below compare the code with them.
\<close>

definition spec_split_predict ::
    "regressor \<Rightarrow> real list \<Rightarrow> real list \<Rightarrow> real list \<Rightarrow> real list" where
  \<comment> \<open>The predictions of one split: min-max bounds taken from the training inputs only,
      the same bounds applied to training and test inputs, a regressor fitted on the scaled
      training inputs and the training targets.\<close>
  "spec_split_predict svr X_train y_train X_test =
     (let lo = Min (set X_train); hi = Max (set X_train);
          span = (if hi - lo = 0 then 1 else hi - lo);
          scaled = (\<lambda>x. (x - lo) / span);
          model = svr (map scaled X_train) y_train
      in map (\<lambda>x. model (scaled x)) X_test)"

definition sign_agree :: "real \<Rightarrow> real \<Rightarrow> bool" where
  \<comment> \<open>Two changes agree in direction: both strictly positive or both non-positive.\<close>
  "sign_agree da dp \<longleftrightarrow> (0 < da \<and> 0 < dp) \<or> (da \<le> 0 \<and> dp \<le> 0)"

definition sample_std :: "real list \<Rightarrow> real" where
  \<comment> \<open>The sample standard deviation, with the divisor \<open>n - 1\<close>.\<close>
  "sample_std xs =
     (let m = sum_list xs / real (length xs)
      in sqrt (sum_list (map (\<lambda>x. (x - m)\<^sup>2) xs) / (real (length xs) - 1)))"

definition population_std :: "real list \<Rightarrow> real" where
  \<comment> \<open>The population standard deviation, with the divisor \<open>n\<close>.\<close>
  "population_std xs =
     (let m = sum_list xs / real (length xs)
      in sqrt (sum_list (map (\<lambda>x. (x - m)\<^sup>2) xs) / real (length xs)))"

fun nonneg_or_special :: "npfloat \<Rightarrow> bool" where
  "nonneg_or_special (Fin a) = (0 \<le> a)"
| "nonneg_or_special PosInf = True"
| "nonneg_or_special NaN = True"
| "nonneg_or_special NegInf = False"

section \<open>Verified properties\<close>

lemmas eval_defs =
  Let_def py_slice_def slice_bound_def py_getitem_def py_range_def py_range_step_def
  MinMaxScaler_fit_def MinMaxScaler_transform_def SVR_fit_def scaled_fit_predict_def
  check_reg_targets_def mean_squared_error_def mean_absolute_error_def r2_score_def
  mape_percent_def directional_accuracy_percent_def np_mean_def np_diff_def np_subtract_def
  np_std_def wf_step_def wf_compute_metrics_def walk_forward_validation_def
  TimeSeriesSplit_split_def cv_fold_def time_series_cross_validation_def
  to_retail_def fsub_def ci_body_def calculate_confidence_intervals_def
  retail_multiplier_def retail_base_cost_def kwh_per_month_def
  mean_regressor_def ppf_table_def


subsection \<open>Walk-forward splits\<close>

lemma take_drop_map_nth: "n \<le> length a \<Longrightarrow> take (n - m) (drop m a) = map ((!) a) [m..<n]"
  by (rule nth_equalityI) auto

lemma py_slice_window:
  assumes "0 \<le> lo" "lo \<le> hi" "hi \<le> int (length a)"
  shows "py_slice a lo hi = map ((!) a) [nat lo..<nat hi]"
proof -
  have "slice_bound (length a) lo = nat lo" "slice_bound (length a) hi = nat hi"
    using assms by (auto simp: slice_bound_def)
  then show ?thesis
    using assms by (simp add: py_slice_def take_drop_map_nth)
qed

lemma py_getitem_nat:
  "0 \<le> i \<Longrightarrow> i < int (length a) \<Longrightarrow> py_getitem a i = Inr (a ! nat i)"
  by (simp add: py_getitem_def Let_def)

lemma scaled_fit_predict_ok:
  assumes "X_train \<noteq> []" "length X_train = length y_train"
  shows "\<exists>scaler. MinMaxScaler_fit X_train = Inr scaler \<and>
           scaled_fit_predict svr X_train y_train X_test =
             Inr (map (svr (MinMaxScaler_transform scaler X_train) y_train)
                      (MinMaxScaler_transform scaler X_test))"
proof -
  obtain scaler where s: "MinMaxScaler_fit X_train = Inr scaler"
    using assms(1) by (simp add: MinMaxScaler_fit_def Let_def)
  have "length (MinMaxScaler_transform scaler X_train) = length y_train"
    using assms(2) by (simp add: MinMaxScaler_transform_def)
  moreover have "MinMaxScaler_transform scaler X_train \<noteq> []"
    using assms(1) by (simp add: MinMaxScaler_transform_def)
  ultimately show ?thesis
    using s by (simp add: scaled_fit_predict_def SVR_fit_def Let_def)
qed

lemma wf_step_window:
  assumes "length demand_data = length prices" "0 < window_size" "window_size \<le> i"
    "i < int (length demand_data)"
  shows "\<exists>y_pred.
           scaled_fit_predict svr (map ((!) demand_data) [nat i - nat window_size..<nat i])
             (map ((!) prices) [nat i - nat window_size..<nat i]) [demand_data ! nat i] = Inr [y_pred] \<and>
           wf_step svr demand_data prices window_size i = Inr (y_pred, prices ! nat i)"
proof -
  let ?idx = "[nat i - nat window_size..<nat i]"
  have n: "nat (i - window_size) = nat i - nat window_size"
    using assms by simp
  have X: "py_slice demand_data (i - window_size) i = map ((!) demand_data) ?idx"
    using assms py_slice_window[of "i - window_size" i demand_data] by (simp add: n)
  have y: "py_slice prices (i - window_size) i = map ((!) prices) ?idx"
    using assms py_slice_window[of "i - window_size" i prices] by (simp add: n)
  have ne: "map ((!) demand_data) ?idx \<noteq> []" using assms by simp
  obtain scaler where
    "scaled_fit_predict svr (map ((!) demand_data) ?idx) (map ((!) prices) ?idx) [demand_data ! nat i] =
       Inr (map (svr (MinMaxScaler_transform scaler (map ((!) demand_data) ?idx)) (map ((!) prices) ?idx))
                (MinMaxScaler_transform scaler [demand_data ! nat i]))"
    using scaled_fit_predict_ok[OF ne, of "map ((!) prices) ?idx" svr "[demand_data ! nat i]"] by auto
  then show ?thesis
    using assms by (simp add: wf_step_def X y py_getitem_nat MinMaxScaler_transform_def)
qed

lemma wf_compute_metrics_ok:
  "length predictions = length actuals \<Longrightarrow> predictions \<noteq> [] \<Longrightarrow>
     \<exists>m. wf_compute_metrics predictions actuals = Inr m"
  by (auto simp: wf_compute_metrics_def mean_squared_error_def mean_absolute_error_def
        r2_score_def check_reg_targets_def Let_def)


lemma wf_loop_results:
  assumes "\<And>i. i \<in> set idxs \<Longrightarrow> \<exists>r. wf_step svr d p w i = Inr r"
  shows "wf_loop svr d p w idxs (ps, acts) =
           Inr (ps @ map (\<lambda>i. fst (projr (wf_step svr d p w i))) idxs,
                acts @ map (\<lambda>i. snd (projr (wf_step svr d p w i))) idxs)"
  using assms
proof (induction idxs arbitrary: ps acts)
  case Nil
  then show ?case by simp
next
  case (Cons i idxs)
  obtain a b where r: "wf_step svr d p w i = Inr (a, b)"
    using Cons.prems[of i] by auto
  have "wf_loop svr d p w idxs (ps @ [a], acts @ [b]) =
          Inr ((ps @ [a]) @ map (\<lambda>i. fst (projr (wf_step svr d p w i))) idxs,
               (acts @ [b]) @ map (\<lambda>i. snd (projr (wf_step svr d p w i))) idxs)"
    using Cons.prems by (intro Cons.IH) simp
  then show ?case by (simp add: r)
qed

text \<open>
  Claim C1. For equal-length series of length \<open>N\<close> and a window size \<open>w\<close> with \<open>0 < w < N\<close>,
  \<^verbatim>\<open>walk_forward_validation\<close> returns, and returns exactly \<open>N - w\<close> predictions and as many
  actuals. The record at position \<open>k\<close> belongs to the index \<open>i = w + k\<close>: its prediction is
  the one fitted on the demand and price values at the indices \<open>i - w, \<dots>, i - 1\<close> (so \<open>w\<close>
  training indices, all below \<open>i\<close>) and evaluated at the single demand value at index \<open>i\<close>,
  and its actual is the price at index \<open>i\<close>.
\<close>

theorem walk_forward_records:
  assumes "length demand_data = length prices"
    and "0 < window_size"
    and "window_size < int (length demand_data)"
  shows "\<exists>predictions actuals metrics.
           walk_forward_validation svr demand_data prices window_size =
             Inr (predictions, actuals, metrics) \<and>
           length predictions = length demand_data - nat window_size \<and>
           length actuals = length demand_data - nat window_size \<and>
           (\<forall>k < length demand_data - nat window_size.
              let i = nat window_size + k; train_idx = [i - nat window_size..<i]
              in length train_idx = nat window_size \<and>
                 (\<forall>j \<in> set train_idx. j < i) \<and>
                 scaled_fit_predict svr (map ((!) demand_data) train_idx)
                   (map ((!) prices) train_idx) [demand_data ! i] = Inr [predictions ! k] \<and>
                 actuals ! k = prices ! i)"
proof -
  let ?n = "length demand_data"
  let ?w = "nat window_size"
  let ?idxs = "py_range window_size (int ?n)"
  let ?step = "wf_step svr demand_data prices window_size"
  let ?ps = "map (\<lambda>i. fst (projr (?step i))) ?idxs"
  let ?as = "map (\<lambda>i. snd (projr (?step i))) ?idxs"
  have len: "length ?idxs = ?n - ?w"
    using assms by (simp add: py_range_def)
  have nth: "?idxs ! k = window_size + int k" if "k < ?n - ?w" for k
    using that assms by (simp add: py_range_def)
  have step: "\<exists>y_pred.
      scaled_fit_predict svr (map ((!) demand_data) [nat i - ?w..<nat i])
        (map ((!) prices) [nat i - ?w..<nat i]) [demand_data ! nat i] = Inr [y_pred] \<and>
      ?step i = Inr (y_pred, prices ! nat i)" if "i \<in> set ?idxs" for i
    using that assms by (intro wf_step_window) (auto simp: py_range_def)
  have loop: "wf_loop svr demand_data prices window_size ?idxs ([], []) = Inr (?ps, ?as)"
    using wf_loop_results[of ?idxs svr demand_data prices window_size "[]" "[]"] step
    by fastforce
  have "?ps \<noteq> []" "length ?ps = length ?as"
    using len assms by auto
  then obtain m where m: "wf_compute_metrics ?ps ?as = Inr m"
    using wf_compute_metrics_ok by blast
  have run: "walk_forward_validation svr demand_data prices window_size = Inr (?ps, ?as, m)"
    by (simp add: walk_forward_validation_def loop m)
  have rec: "scaled_fit_predict svr (map ((!) demand_data) [k..<?w + k])
        (map ((!) prices) [k..<?w + k]) [demand_data ! (?w + k)] = Inr [?ps ! k] \<and>
      ?as ! k = prices ! (?w + k)" if k: "k < ?n - ?w" for k
  proof -
    have i: "?idxs ! k = window_size + int k" by (rule nth[OF k])
    have "window_size + int k \<in> set ?idxs"
      using k len i by (metis nth_mem)
    from step[OF this] assms(2) show ?thesis
      using k len by (auto simp: i nat_add_distrib)
  qed
  show ?thesis
    using run len rec by (auto simp: Let_def)
qed

theorem walk_forward_records_witness:
  "length [1, 2, 3, 5 :: real] = length [2, 4, 6, 7 :: real] \<and> (0::int) < 2 \<and>
   (2::int) < int (length [1, 2, 3, 5 :: real]) \<and>
   (\<exists>predictions actuals metrics.
      walk_forward_validation mean_regressor [1, 2, 3, 5] [2, 4, 6, 7] 2 =
        Inr (predictions, actuals, metrics) \<and>
      length predictions = 2 \<and> length actuals = 2)"
proof -
  have h: "length [1, 2, 3, 5 :: real] = length [2, 4, 6, 7 :: real]" "(0::int) < 2"
    "(2::int) < int (length [1, 2, 3, 5 :: real])" by simp_all
  from walk_forward_records[OF h, of mean_regressor]
  obtain predictions actuals metrics where
    r: "walk_forward_validation mean_regressor [1, 2, 3, 5] [2, 4, 6, 7] 2 =
        Inr (predictions, actuals, metrics)"
    and l: "length predictions = length [1, 2, 3, 5 :: real] - nat 2"
      "length actuals = length [1, 2, 3, 5 :: real] - nat 2"
    by blast
  from l have "length predictions = 2" "length actuals = 2" by simp_all
  with r h show ?thesis by blast
qed

subsection \<open>Per-split fitting\<close>

lemma MinMaxScaler_transform_bounds:
  assumes "MinMaxScaler_fit X = Inr s"
  shows "MinMaxScaler_transform s Z =
           map (\<lambda>x. (x - Min (set X)) /
                  (if Max (set X) - Min (set X) = 0 then 1 else Max (set X) - Min (set X))) Z"
  using assms
  by (auto simp: MinMaxScaler_fit_def MinMaxScaler_transform_def Let_def diff_divide_distrib
      split: if_splits)

lemma scaled_fit_predict_spec:
  assumes "scaled_fit_predict svr X_train y_train X_test = Inr y_pred"
  shows "y_pred = spec_split_predict svr X_train y_train X_test"
proof -
  obtain s where s: "MinMaxScaler_fit X_train = Inr s"
    using assms by (auto simp: scaled_fit_predict_def split: sum.splits)
  have "y_pred = map (svr (MinMaxScaler_transform s X_train) y_train) (MinMaxScaler_transform s X_test)"
    using assms s by (auto simp: scaled_fit_predict_def SVR_fit_def Let_def split: if_splits)
  then show ?thesis
    by (simp add: MinMaxScaler_transform_bounds[OF s] spec_split_predict_def Let_def comp_def)
qed

lemma wf_loop_steps_ok:
  "wf_loop svr d p w idxs acc = Inr r \<Longrightarrow> i \<in> set idxs \<Longrightarrow> \<exists>r'. wf_step svr d p w i = Inr r'"
proof (induction idxs arbitrary: acc)
  case Nil
  then show ?case by simp
next
  case (Cons j idxs)
  obtain ps acts where acc: "acc = (ps, acts)" by (cases acc)
  from Cons.prems(1) obtain a b where j: "wf_step svr d p w j = Inr (a, b)"
    and rest: "wf_loop svr d p w idxs (ps @ [a], acts @ [b]) = Inr r"
    by (auto simp: acc split: sum.splits)
  show ?case
  proof (cases "i = j")
    case True
    then show ?thesis using j by simp
  next
    case False
    then have "i \<in> set idxs" using Cons.prems(2) by simp
    then show ?thesis using Cons.IH[OF rest] by simp
  qed
qed

lemma wf_step_spec:
  assumes "wf_step svr d p w i = Inr (y_pred, y_test)"
  shows "\<exists>x. py_getitem d i = Inr x \<and> py_getitem p i = Inr y_test \<and>
           [y_pred] = spec_split_predict svr (py_slice d (i - w) i) (py_slice p (i - w) i) [x]"
proof -
  from assms obtain x yp where x: "py_getitem d i = Inr x" and y: "py_getitem p i = Inr y_test"
    and yp: "scaled_fit_predict svr (py_slice d (i - w) i) (py_slice p (i - w) i) [x] = Inr yp"
    and hd: "y_pred = hd yp"
    by (auto simp: wf_step_def Let_def split: sum.splits)
  have eq: "yp = spec_split_predict svr (py_slice d (i - w) i) (py_slice p (i - w) i) [x]"
    by (rule scaled_fit_predict_spec[OF yp])
  then have "length yp = 1" by (simp add: spec_split_predict_def Let_def)
  then have "yp = [hd yp]" by (cases yp) auto
  then show ?thesis using x y eq hd by metis
qed

lemma walk_forward_splits:
  assumes "walk_forward_validation svr d p w = Inr (predictions, actuals, m)"
  shows "length predictions = length (py_range w (int (length d))) \<and>
         (\<forall>k < length predictions.
            let i = py_range w (int (length d)) ! k
            in \<exists>x. py_getitem d i = Inr x \<and>
                 [predictions ! k] =
                   spec_split_predict svr (py_slice d (i - w) i) (py_slice p (i - w) i) [x])"
proof -
  let ?idxs = "py_range w (int (length d))"
  let ?step = "wf_step svr d p w"
  from assms have loop: "wf_loop svr d p w ?idxs ([], []) = Inr (predictions, actuals)"
    by (auto simp: walk_forward_validation_def split: sum.splits)
  have ok: "\<exists>r. ?step i = Inr r" if "i \<in> set ?idxs" for i
    using wf_loop_steps_ok[OF loop that] .
  have ps: "predictions = map (\<lambda>i. fst (projr (?step i))) ?idxs"
    using wf_loop_results[of ?idxs svr d p w "[]" "[]"] ok loop by simp
  have "\<exists>x. py_getitem d (?idxs ! k) = Inr x \<and>
          [predictions ! k] = spec_split_predict svr (py_slice d (?idxs ! k - w) (?idxs ! k))
             (py_slice p (?idxs ! k - w) (?idxs ! k)) [x]" if k: "k < length ?idxs" for k
  proof -
    obtain a b where r: "?step (?idxs ! k) = Inr (a, b)"
      using ok[of "?idxs ! k"] k by fastforce
    have "predictions ! k = a" using k by (subst ps) (simp add: r)
    then show ?thesis using wf_step_spec[OF r] by auto
  qed
  moreover have "length predictions = length ?idxs" by (subst ps) simp
  ultimately show ?thesis by (simp add: Let_def)
qed


lemma np_take_Inr: "np_take a idx = Inr ys \<Longrightarrow> ys = map ((!) a) idx"
  by (induction idx arbitrary: ys) (auto split: if_splits sum.splits)

lemma cv_loop_inv:
  "cv_loop svr X y n splits rows0 = Inr rows \<Longrightarrow>
     length rows = length rows0 + length splits \<and>
     take (length rows0) rows = rows0 \<and>
     (\<forall>k < length splits. cv_fold svr X y (n + k) (splits ! k) = Inr (rows ! (length rows0 + k)))"
proof (induction splits arbitrary: n rows0)
  case Nil
  then show ?case by simp
next
  case (Cons s splits)
  from Cons.prems obtain row where row: "cv_fold svr X y n s = Inr row"
    and rest: "cv_loop svr X y (n + 1) splits (rows0 @ [row]) = Inr rows"
    by (auto split: sum.splits)
  from Cons.IH[OF rest] have len: "length rows = length rows0 + 1 + length splits"
    and tk: "take (length rows0 + 1) rows = rows0 @ [row]"
    and all: "\<forall>k < length splits.
        cv_fold svr X y (n + 1 + k) (splits ! k) = Inr (rows ! (length rows0 + 1 + k))"
    by simp_all
  have r0: "rows ! length rows0 = row"
  proof -
    have "rows ! length rows0 = take (length rows0 + 1) rows ! length rows0" by simp
    also have "\<dots> = row" by (simp only: tk nth_append_length)
    finally show ?thesis .
  qed
  have t0: "take (length rows0) rows = rows0"
  proof -
    have "take (length rows0) rows = take (length rows0) (take (length rows0 + 1) rows)"
      by (simp add: min_def)
    also have "\<dots> = rows0" by (simp only: tk) simp
    finally show ?thesis .
  qed
  have "cv_fold svr X y (n + k) ((s # splits) ! k) = Inr (rows ! (length rows0 + k))"
    if "k < length (s # splits)" for k
  proof (cases k)
    case 0
    then show ?thesis using row r0 by simp
  next
    case (Suc k')
    then show ?thesis using all that by simp
  qed
  then show ?case using len t0 by simp
qed

lemma cv_fold_spec:
  assumes "cv_fold svr X y n (train_idx, test_idx) = Inr row"
  shows "let X_train = map ((!) X) train_idx; y_train = map ((!) y) train_idx;
             X_test = map ((!) X) test_idx; y_test = map ((!) y) test_idx;
             y_pred = spec_split_predict svr X_train y_train X_test
         in (\<exists>mse. mean_squared_error y_test y_pred = Inr mse \<and> rmse row = sqrt mse) \<and>
            mean_absolute_error y_test y_pred = Inr (mae row) \<and>
            r2_score y_test y_pred = Inr (r2 row) \<and>
            mape row = mape_percent y_test y_pred"
proof -
  from assms obtain X_train X_test y_train y_test y_pred mse mae' r2' where
    t: "np_take X train_idx = Inr X_train" "np_take X test_idx = Inr X_test"
       "np_take y train_idx = Inr y_train" "np_take y test_idx = Inr y_test"
    and yp: "scaled_fit_predict svr X_train y_train X_test = Inr y_pred"
    and m: "mean_squared_error y_test y_pred = Inr mse"
       "mean_absolute_error y_test y_pred = Inr mae'" "r2_score y_test y_pred = Inr r2'"
    and row: "row = \<lparr>rmse = sqrt mse, mae = mae', r2 = r2',
             mape = mape_percent y_test y_pred,
             fold = n, train_size = length train_idx, test_size = length test_idx\<rparr>"
    by (auto simp: cv_fold_def split: sum.splits)
  note eqs = t[THEN np_take_Inr] scaled_fit_predict_spec[OF yp]
  show ?thesis
    unfolding Let_def using m by (simp add: row eqs[symmetric])
qed

text \<open>
  Claim C2. In a walk-forward run and in a cross-validation run that return, every split's
  predictions are the ones of \<open>spec_split_predict\<close> on that split's own data: the bounds of
  the scaler are the minimum and maximum of the split's training inputs, the test inputs are
  transformed with these bounds, and the regressor is fitted on the scaled training inputs
  and the training targets of the split. Nothing of another split and nothing of the test
  inputs enters the fit. For walk-forward the prediction of step \<open>k\<close> is stated; for
  cross-validation the metrics of row \<open>k\<close> are those of the split's predictions.
\<close>

theorem split_fit_on_training_only:
  "(walk_forward_validation svr demand_data prices window_size = Inr (predictions, actuals, m) \<longrightarrow>
      length predictions = length (py_range window_size (int (length demand_data))) \<and>
      (\<forall>k < length predictions.
         let i = py_range window_size (int (length demand_data)) ! k
         in \<exists>x. py_getitem demand_data i = Inr x \<and>
              [predictions ! k] =
                spec_split_predict svr (py_slice demand_data (i - window_size) i)
                  (py_slice prices (i - window_size) i) [x])) \<and>
   (time_series_cross_validation svr X y n_splits = Inr rows \<longrightarrow>
      (\<exists>splits. TimeSeriesSplit_split n_splits (length X) = Inr splits \<and>
         length rows = length splits \<and>
         (\<forall>k < length rows.
            let train_idx = fst (splits ! k); test_idx = snd (splits ! k);
                X_train = map ((!) X) train_idx; y_train = map ((!) y) train_idx;
                X_test = map ((!) X) test_idx; y_test = map ((!) y) test_idx;
                y_pred = spec_split_predict svr X_train y_train X_test
            in (\<exists>mse. mean_squared_error y_test y_pred = Inr mse \<and> rmse (rows ! k) = sqrt mse) \<and>
               mean_absolute_error y_test y_pred = Inr (mae (rows ! k)) \<and>
               r2_score y_test y_pred = Inr (r2 (rows ! k)) \<and>
               mape (rows ! k) = mape_percent y_test y_pred)))"
proof (intro conjI impI)
  assume "walk_forward_validation svr demand_data prices window_size = Inr (predictions, actuals, m)"
  from walk_forward_splits[OF this]
  show "length predictions = length (py_range window_size (int (length demand_data)))"
    and "\<forall>k < length predictions.
         let i = py_range window_size (int (length demand_data)) ! k
         in \<exists>x. py_getitem demand_data i = Inr x \<and>
              [predictions ! k] =
                spec_split_predict svr (py_slice demand_data (i - window_size) i)
                  (py_slice prices (i - window_size) i) [x]"
    by simp_all
next
  assume run: "time_series_cross_validation svr X y n_splits = Inr rows"
  then obtain splits where sp: "TimeSeriesSplit_split n_splits (length X) = Inr splits"
    and loop: "cv_loop svr X y 1 splits [] = Inr rows"
    by (auto simp: time_series_cross_validation_def split: sum.splits)
  from cv_loop_inv[OF loop] have len: "length rows = length splits"
    and folds: "\<And>k. k < length splits \<Longrightarrow> cv_fold svr X y (1 + k) (splits ! k) = Inr (rows ! k)"
    by simp_all
  have "let train_idx = fst (splits ! k); test_idx = snd (splits ! k);
                X_train = map ((!) X) train_idx; y_train = map ((!) y) train_idx;
                X_test = map ((!) X) test_idx; y_test = map ((!) y) test_idx;
                y_pred = spec_split_predict svr X_train y_train X_test
            in (\<exists>mse. mean_squared_error y_test y_pred = Inr mse \<and> rmse (rows ! k) = sqrt mse) \<and>
               mean_absolute_error y_test y_pred = Inr (mae (rows ! k)) \<and>
               r2_score y_test y_pred = Inr (r2 (rows ! k)) \<and>
               mape (rows ! k) = mape_percent y_test y_pred" if "k < length rows" for k
  proof -
    have "cv_fold svr X y (1 + k) (fst (splits ! k), snd (splits ! k)) = Inr (rows ! k)"
      using folds[of k] that len by simp
    from cv_fold_spec[OF this] show ?thesis by (simp add: Let_def)
  qed
  with sp len show "\<exists>splits. TimeSeriesSplit_split n_splits (length X) = Inr splits \<and>
         length rows = length splits \<and>
         (\<forall>k < length rows.
            let train_idx = fst (splits ! k); test_idx = snd (splits ! k);
                X_train = map ((!) X) train_idx; y_train = map ((!) y) train_idx;
                X_test = map ((!) X) test_idx; y_test = map ((!) y) test_idx;
                y_pred = spec_split_predict svr X_train y_train X_test
            in (\<exists>mse. mean_squared_error y_test y_pred = Inr mse \<and> rmse (rows ! k) = sqrt mse) \<and>
               mean_absolute_error y_test y_pred = Inr (mae (rows ! k)) \<and>
               r2_score y_test y_pred = Inr (r2 (rows ! k)) \<and>
               mape (rows ! k) = mape_percent y_test y_pred)"
    by blast
qed

theorem split_fit_on_training_only_witness:
  "walk_forward_validation mean_regressor [1, 2, 3, 5] [2, 4, 6, 7] 2 =
     Inr ([3, 5], [6, 7],
          \<lparr>rmse = sqrt (13 / 2), mae = 5 / 2, r2 = Fin (- 25), mape = Fin (275 / 7),
            directional_accuracy = Fin 100\<rparr>) \<and>
   time_series_cross_validation mean_regressor [1, 2, 3] [2, 4, 7] 2 =
     Inr [\<lparr>rmse = 2, mae = 2, r2 = NaN, mape = Fin 50, fold = 1, train_size = 1, test_size = 1\<rparr>,
          \<lparr>rmse = 4, mae = 4, r2 = NaN, mape = Fin (400 / 7), fold = 2, train_size = 2,
            test_size = 1\<rparr>] \<and>
   length [3, 5 :: real] = length (py_range 2 (int (length [1, 2, 3, 5 :: real]))) \<and>
   (\<exists>splits. TimeSeriesSplit_split 2 (length [1, 2, 3 :: real]) = Inr splits \<and>
      length [\<lparr>rmse = 2, mae = 2, r2 = NaN, mape = Fin 50, fold = 1, train_size = 1,
                test_size = 1\<rparr>,
              \<lparr>rmse = 4, mae = 4, r2 = NaN, mape = Fin (400 / 7), fold = 2, train_size = 2,
                test_size = 1\<rparr>] = length splits)"
proof -
  have h1: "walk_forward_validation mean_regressor [1, 2, 3, 5] [2, 4, 6, 7] 2 =
     Inr ([3, 5], [6, 7],
          \<lparr>rmse = sqrt (13 / 2), mae = 5 / 2, r2 = Fin (- 25), mape = Fin (275 / 7),
            directional_accuracy = Fin 100\<rparr>)"
    by (simp add: eval_defs upto_rec1 power2_eq_square)
  have h2: "time_series_cross_validation mean_regressor [1, 2, 3] [2, 4, 7] 2 =
     Inr [\<lparr>rmse = 2, mae = 2, r2 = NaN, mape = Fin 50, fold = 1, train_size = 1, test_size = 1\<rparr>,
          \<lparr>rmse = 4, mae = 4, r2 = NaN, mape = Fin (400 / 7), fold = 2, train_size = 2,
            test_size = 1\<rparr>]"
    by (simp add: eval_defs upt_rec)
  note T = split_fit_on_training_only[where svr = mean_regressor
      and demand_data = "[1, 2, 3, 5]" and prices = "[2, 4, 6, 7]" and window_size = 2
      and X = "[1, 2, 3]" and y = "[2, 4, 7]" and n_splits = 2]
  from mp[OF T[THEN conjunct1] h1]
  have a: "length [3, 5 :: real] = length (py_range 2 (int (length [1, 2, 3, 5 :: real])))"
    by (rule conjunct1)
  from mp[OF T[THEN conjunct2] h2]
  have b: "\<exists>splits. TimeSeriesSplit_split 2 (length [1, 2, 3 :: real]) = Inr splits \<and>
      length [\<lparr>rmse = 2, mae = 2, r2 = NaN, mape = Fin 50, fold = 1, train_size = 1,
                test_size = 1\<rparr>,
              \<lparr>rmse = 4 :: real, mae = 4, r2 = NaN, mape = Fin (400 / 7), fold = 2, train_size = 2,
                test_size = 1\<rparr>] = length splits"
    by blast
  from h1 h2 a b show ?thesis by (intro conjI)
qed

subsection \<open>Directional accuracy\<close>

lemma fdiv_Fin_nz: "b \<noteq> 0 \<Longrightarrow> fdiv (Fin a) (Fin b) = Fin (a / b)"
  by simp

lemma np_sum_Fin: "np_sum (map Fin xs) = Fin (sum_list xs)"
  by (induction xs) simp_all

lemma sum_list_indicator:
  "sum_list (map (\<lambda>x. if P x then 1 else 0 :: real) xs) = real (length (filter P xs))"
  by (induction xs) simp_all

lemma sign_agree_iff: "sign_agree da dp \<longleftrightarrow> ((da > 0) = (dp > 0))"
  by (auto simp: sign_agree_def)

lemma length_np_diff: "length (np_diff xs) = length xs - 1"
  by (simp add: np_diff_def)

lemma directional_accuracy_count:
  assumes "length predictions = length actuals" "2 \<le> length actuals"
  shows "directional_accuracy_percent actuals predictions =
           Fin (real (length (filter (\<lambda>(da, dp). sign_agree da dp)
                                (zip (np_diff actuals) (np_diff predictions))))
                / real (length actuals - 1) * 100)"
proof -
  let ?z = "zip (np_diff actuals) (np_diff predictions)"
  let ?ind = "\<lambda>(a, p). if sign_agree a p then 1 else 0 :: real"
  have m: "map2 (\<lambda>a p. Fin (if (a > 0) = (p > 0) then 1 else 0)) (np_diff actuals) (np_diff predictions) =
        map Fin (map ?ind ?z)"
    by (simp add: sign_agree_iff split_def)
  have len: "length ?z = length actuals - 1"
    using assms by (simp add: length_np_diff)
  have s: "sum_list (map ?ind ?z) = real (length (filter (\<lambda>(da, dp). sign_agree da dp) ?z))"
    using sum_list_indicator[of "\<lambda>(da, dp). sign_agree da dp" ?z] by (simp add: split_def)
  have nz: "real (length actuals - 1) \<noteq> 0" using assms by simp
  have "np_mean (map Fin (map ?ind ?z)) =
          fdiv (Fin (sum_list (map ?ind ?z))) (Fin (real (length actuals - 1)))"
    unfolding np_mean_def np_sum_Fin by (simp del: length_zip add: len)
  also have "\<dots> = Fin (real (length (filter (\<lambda>(da, dp). sign_agree da dp) ?z))
                        / real (length actuals - 1))"
    by (simp only: s fdiv_Fin_nz[OF nz])
  finally show ?thesis
    unfolding directional_accuracy_percent_def Let_def m by simp
qed

lemma directional_accuracy_self:
  assumes "2 \<le> length actuals"
  shows "directional_accuracy_percent actuals actuals = Fin 100"
proof -
  let ?z = "zip (np_diff actuals) (np_diff actuals)"
  have "filter (\<lambda>(da, dp). sign_agree da dp) ?z = ?z"
    by (rule filter_True) (auto simp: sign_agree_def set_zip)
  moreover have "length ?z = length actuals - 1" by (simp add: length_np_diff)
  moreover have "real (length actuals - 1) \<noteq> 0" using assms by simp
  ultimately show ?thesis
    using directional_accuracy_count[of actuals actuals] assms by simp
qed

text \<open>
  Claim C9. Over the predictions and actuals of a walk-forward run (equal lengths, at least
  two points) the metrics are computed, and the directional accuracy is 100 times the number
  of steps of the first-difference series where the change of the actuals and the change of
  the predictions agree in direction (both strictly positive or both non-positive, a change
  of exactly 0 counting as non-positive), over the number of steps. When the predictions
  equal the actuals the directional accuracy is 100.
\<close>

theorem directional_accuracy_sign_agreement:
  assumes "length predictions = length actuals" and "2 \<le> length actuals"
  shows "\<exists>m. wf_compute_metrics predictions actuals = Inr m \<and>
           directional_accuracy m =
             Fin (real (length (filter (\<lambda>(da, dp). sign_agree da dp)
                                  (zip (np_diff actuals) (np_diff predictions))))
                  / real (length actuals - 1) * 100) \<and>
           (predictions = actuals \<longrightarrow> directional_accuracy m = Fin 100)"
proof -
  have ne: "predictions \<noteq> []" using assms by auto
  obtain m where m: "wf_compute_metrics predictions actuals = Inr m"
    using wf_compute_metrics_ok[OF assms(1) ne] by blast
  have da: "directional_accuracy m = directional_accuracy_percent actuals predictions"
    using m by (auto simp: wf_compute_metrics_def split: sum.splits)
  show ?thesis
    using m da directional_accuracy_count[OF assms] directional_accuracy_self[OF assms(2)]
    by auto
qed

theorem directional_accuracy_sign_agreement_witness:
  "length [1, 3, 3, 4 :: real] = length [1, 2, 2, 1 :: real] \<and> 2 \<le> length [1, 2, 2, 1 :: real] \<and>
   (\<exists>m. wf_compute_metrics [1, 3, 3, 4] [1, 2, 2, 1] = Inr m \<and>
      directional_accuracy m = Fin (200 / 3))"
proof -
  have h: "length [1, 3, 3, 4 :: real] = length [1, 2, 2, 1 :: real]"
    "2 \<le> length [1, 2, 2, 1 :: real]" by simp_all
  from directional_accuracy_sign_agreement[OF h]
  obtain m where m: "wf_compute_metrics [1, 3, 3, 4] [1, 2, 2, 1] = Inr m"
    and d: "directional_accuracy m =
             Fin (real (length (filter (\<lambda>(da, dp). sign_agree da dp)
                                  (zip (np_diff [1, 2, 2, 1]) (np_diff [1, 3, 3, 4]))))
                  / real (length [1, 2, 2, 1 :: real] - 1) * 100)"
    by blast
  have "directional_accuracy m = Fin (200 / 3)"
    unfolding d by (simp add: np_diff_def sign_agree_def)
  with m h show ?thesis by blast
qed

subsection \<open>Confidence intervals\<close>

lemma np_std_population: "xs \<noteq> [] \<Longrightarrow> np_std xs = Fin (population_std xs)"
  by (simp add: np_std_def population_std_def Let_def)


lemma np_subtract_same_length:
  "length a = length b \<Longrightarrow> np_subtract a b = Inr (map2 (\<lambda>x y. x - y) a b)"
  by (simp add: np_subtract_def)







subsection \<open>Standard error and point estimate\<close>

lemma population_vs_sample_std:
  assumes "2 \<le> length xs"
  shows "population_std xs =
           sqrt ((real (length xs) - 1) / real (length xs)) * sample_std xs"
proof -
  let ?n = "real (length xs)"
  let ?S = "sum_list (map (\<lambda>x. (x - sum_list xs / ?n)\<^sup>2) xs)"
  have n: "?n \<noteq> 0" "?n - 1 \<noteq> 0" using assms by auto
  have "?S / ?n = ((?n - 1) / ?n) * (?S / (?n - 1))"
    using n by (simp add: field_simps)
  then have "sqrt (?S / ?n) = sqrt ((?n - 1) / ?n) * sqrt (?S / (?n - 1))"
    by (simp only: real_sqrt_mult)
  then show ?thesis by (simp add: population_std_def sample_std_def Let_def)
qed

text \<open>
  Claim C7 as stated fails: on the residuals 0 and 2 the standard error returned by
  \<^verbatim>\<open>calculate_confidence_intervals\<close> is 1, while their sample standard deviation (divisor
  \<open>n - 1\<close>) is the square root of 2.
\<close>

theorem standard_error_sample_std_counterexample:
  "calculate_confidence_intervals ppf_table [0, 0] [0, 2] (95 / 100) =
     Inr \<lparr>se = Fin 1, margin = Fin (49 / 25), retail_point = Fin (40343 / 100000),
          retail_lower = Fin (39657 / 100000), retail_upper = Fin (41029 / 100000)\<rparr> \<and>
   sample_std (map2 (\<lambda>x y. x - y) [0, 2] [0, 0]) = sqrt 2 \<and>
   Fin (sample_std (map2 (\<lambda>x y. x - y) [0, 2] [0, 0])) \<noteq> Fin 1"
proof -
  have s: "sample_std (map2 (\<lambda>x y. x - y) [0, 2] [0, 0]) = sqrt 2"
    by (simp add: sample_std_def)
  have "calculate_confidence_intervals ppf_table [0, 0] [0, 2] (95 / 100) =
     Inr \<lparr>se = Fin 1, margin = Fin (49 / 25), retail_point = Fin (40343 / 100000),
          retail_lower = Fin (39657 / 100000), retail_upper = Fin (41029 / 100000)\<rparr>"
    by (simp add: eval_defs)
  then show ?thesis using s by simp
qed

text \<open>
  Claim C7, amended. For predictions and actuals of equal length at least 2, the standard
  error is the population standard deviation of the residuals \<open>actuals - predictions\<close>
  (\<^verbatim>\<open>np.std\<close> with its default divisor \<open>n\<close>), which is the sample standard deviation scaled
  by the square root of \<open>(n - 1) / n\<close>.
\<close>

theorem standard_error_population_std:
  assumes "length predictions = length actuals" and "2 \<le> length actuals"
  shows "\<exists>r. calculate_confidence_intervals ppf predictions actuals confidence = Inr r \<and>
           se r = Fin (population_std (map2 (\<lambda>x y. x - y) actuals predictions)) \<and>
           population_std (map2 (\<lambda>x y. x - y) actuals predictions) =
             sqrt ((real (length actuals) - 1) / real (length actuals)) *
               sample_std (map2 (\<lambda>x y. x - y) actuals predictions)"
proof -
  let ?res = "map2 (\<lambda>x y. x - y) actuals predictions"
  have len: "length ?res = length actuals" using assms(1) by simp
  then have ne: "?res \<noteq> []" using assms(2) by auto
  obtain v where v: "ci_body ppf predictions actuals confidence = Inr v"
    and se: "se v = Fin (population_std ?res)"
    by (simp add: ci_body_def np_subtract_same_length[OF assms(1)[symmetric]]
        np_std_population[OF ne] Let_def)
  have "calculate_confidence_intervals ppf predictions actuals confidence =
      Inr \<lparr>se = se v, margin = margin v, retail_point = retail_point v,
             retail_lower = retail_lower v, retail_upper = retail_upper v\<rparr>"
    by (simp add: calculate_confidence_intervals_def v)
  moreover have "population_std ?res =
      sqrt ((real (length actuals) - 1) / real (length actuals)) * sample_std ?res"
    using population_vs_sample_std[of ?res] assms(2) by (simp only: len)
  ultimately show ?thesis using se by simp
qed

theorem standard_error_population_std_witness:
  "length [0, 0 :: real] = length [0, 2 :: real] \<and> 2 \<le> length [0, 2 :: real] \<and>
   (\<exists>r. calculate_confidence_intervals ppf_table [0, 0] [0, 2] (95 / 100) = Inr r \<and>
      se r = Fin (population_std (map2 (\<lambda>x y. x - y) [0, 2] [0, 0])))"
proof -
  have h: "length [0, 0 :: real] = length [0, 2 :: real]" "2 \<le> length [0, 2 :: real]"
    by simp_all
  from standard_error_population_std[OF h, of ppf_table "95 / 100"] h
  show ?thesis by blast
qed

text \<open>
  Claim C8 as stated fails: the function has no parameter for a point forecast. With
  predictions and actuals around 50 (a caller whose forecast is 50), the interval is
  98.02 to 102.94, centred at the constant 100.98 of the function body.
\<close>

theorem interval_centre_counterexample:
  "ci_body ppf_table [50, 50] [50, 52] (95 / 100) =
     Inr \<lparr>se = Fin 1, margin = Fin (49 / 25), retail_point = Fin (40343 / 100000),
          retail_lower = Fin (39657 / 100000), retail_upper = Fin (41029 / 100000),
          z_score = Fin (49 / 25), base_prediction_2035 = Fin (5049 / 50),
          lower_bound = Fin (4951 / 50), upper_bound = Fin (5147 / 50),
          bill_point = Fin (40343 / 100), bill_lower = Fin (39657 / 100),
          bill_upper = Fin (41029 / 100)\<rparr> \<and>
   ((4951 / 50 + 5147 / 50) / 2 :: real) \<noteq> 50"
  by (simp add: eval_defs)

text \<open>
  Claim C8, amended. \<^verbatim>\<open>calculate_confidence_intervals\<close> takes no point forecast: whenever it
  returns, its point estimate is the constant 100.98 of its body whatever the predictions,
  actuals and confidence level are, and with a finite margin the interval is
  \<open>[100.98 - margin, 100.98 + margin]\<close>, centred at 100.98.
\<close>

theorem interval_centred_at_constant:
  assumes "ci_body ppf predictions actuals confidence = Inr v"
  shows "base_prediction_2035 v = Fin (10098 / 100) \<and>
         retail_point v = Fin (40343 / 100000) \<and>
         (\<forall>m. margin v = Fin m \<longrightarrow>
            lower_bound v = Fin (10098 / 100 - m) \<and>
            upper_bound v = Fin (10098 / 100 + m) \<and>
            ((10098 / 100 - m) + (10098 / 100 + m)) / 2 = 10098 / 100)"
  using assms
  by (auto simp: ci_body_def Let_def fsub_def to_retail_def retail_multiplier_def
      retail_base_cost_def split: sum.splits)

theorem interval_centred_at_constant_witness:
  "ci_body ppf_table [50, 50] [50, 52] (95 / 100) =
     Inr \<lparr>se = Fin 1, margin = Fin (49 / 25), retail_point = Fin (40343 / 100000),
          retail_lower = Fin (39657 / 100000), retail_upper = Fin (41029 / 100000),
          z_score = Fin (49 / 25), base_prediction_2035 = Fin (5049 / 50),
          lower_bound = Fin (4951 / 50), upper_bound = Fin (5147 / 50),
          bill_point = Fin (40343 / 100), bill_lower = Fin (39657 / 100),
          bill_upper = Fin (41029 / 100)\<rparr> \<and>
   base_prediction_2035 \<lparr>se = Fin 1, margin = Fin (49 / 25), retail_point = Fin (40343 / 100000),
          retail_lower = Fin (39657 / 100000), retail_upper = Fin (41029 / 100000),
          z_score = Fin (49 / 25), base_prediction_2035 = Fin (5049 / 50),
          lower_bound = Fin (4951 / 50), upper_bound = Fin (5147 / 50),
          bill_point = Fin (40343 / 100), bill_lower = Fin (39657 / 100),
          bill_upper = Fin (41029 / 100)\<rparr> = Fin (10098 / 100)"
proof -
  have h: "ci_body ppf_table [50, 50] [50, 52] (95 / 100) =
     Inr \<lparr>se = Fin 1, margin = Fin (49 / 25), retail_point = Fin (40343 / 100000),
          retail_lower = Fin (39657 / 100000), retail_upper = Fin (41029 / 100000),
          z_score = Fin (49 / 25), base_prediction_2035 = Fin (5049 / 50),
          lower_bound = Fin (4951 / 50), upper_bound = Fin (5147 / 50),
          bill_point = Fin (40343 / 100), bill_lower = Fin (39657 / 100),
          bill_upper = Fin (41029 / 100)\<rparr>"
    by (simp add: eval_defs)
  from interval_centred_at_constant[OF h, THEN conjunct1] h show ?thesis
    by (intro conjI)
qed

subsection \<open>MAPE on zero actuals\<close>

lemma mape_term_nonzero:
  "t \<noteq> 0 \<Longrightarrow> fabs (fdiv (Fin (t - p)) (Fin t)) = Fin (\<bar>t - p\<bar> / \<bar>t\<bar>)"
  by simp

lemma mape_term_zero:
  "fabs (fdiv (Fin (0 - p)) (Fin 0)) = (if p = 0 then NaN else PosInf)"
  by simp

lemma mape_term_special: "nonneg_or_special (fabs (fdiv (Fin (t - p)) (Fin t)))"
  by (cases "t = 0") auto

lemma np_sum_special:
  assumes "\<forall>x \<in> set xs. nonneg_or_special x"
  shows "nonneg_or_special (np_sum xs) \<and>
         ((\<exists>x \<in> set xs. \<not> is_finite x) \<longrightarrow> \<not> is_finite (np_sum xs))"
  using assms
proof (induction xs)
  case Nil
  then show ?case by simp
next
  case (Cons x xs)
  then have x: "nonneg_or_special x" and ih: "nonneg_or_special (np_sum xs)"
    "(\<exists>x \<in> set xs. \<not> is_finite x) \<longrightarrow> \<not> is_finite (np_sum xs)"
    by simp_all
  show ?case
    using x ih by (cases x; cases "np_sum xs") auto
qed

lemma special_not_finite:
  "nonneg_or_special x \<Longrightarrow> \<not> is_finite x \<Longrightarrow> x = PosInf \<or> x = NaN"
  by (cases x) auto

lemma mape_percent_nonzero:
  assumes "length y_pred = length y_true" and "y_true \<noteq> []" and "\<forall>t \<in> set y_true. t \<noteq> 0"
  shows "mape_percent y_true y_pred =
           Fin (sum_list (map2 (\<lambda>t p. \<bar>t - p\<bar> / \<bar>t\<bar>) y_true y_pred) / real (length y_true) * 100)"
proof -
  have eq: "map fabs (map2 (\<lambda>t p. fdiv (Fin (t - p)) (Fin t)) y_true y_pred) =
        map Fin (map2 (\<lambda>t p. \<bar>t - p\<bar> / \<bar>t\<bar>) y_true y_pred)"
    using assms(3) by (auto dest: set_zip_leftD)
  have n: "real (length y_true) \<noteq> 0" using assms(2) by simp
  show ?thesis
    unfolding mape_percent_def eq np_mean_def np_sum_Fin
    using n assms(1) by simp
qed

lemma mape_percent_zero:
  assumes "length y_pred = length y_true" and "\<exists>t \<in> set y_true. t = 0"
  shows "mape_percent y_true y_pred = PosInf \<or> mape_percent y_true y_pred = NaN"
proof -
  let ?xs = "map fabs (map2 (\<lambda>t p. fdiv (Fin (t - p)) (Fin t)) y_true y_pred)"
  have sp: "\<forall>x \<in> set ?xs. nonneg_or_special x"
    by (auto simp: mape_term_special)
  from assms(2) obtain i where i: "i < length y_true" "y_true ! i = 0"
    by (auto simp: in_set_conv_nth)
  then have "?xs ! i = (if y_pred ! i = 0 then NaN else PosInf)"
    using assms(1) by simp
  then have "\<not> is_finite (?xs ! i)" by simp
  moreover have "?xs ! i \<in> set ?xs" using i assms(1) by (intro nth_mem) simp
  ultimately have "\<exists>x \<in> set ?xs. \<not> is_finite x" by blast
  with np_sum_special[OF sp] have "nonneg_or_special (np_sum ?xs)" "\<not> is_finite (np_sum ?xs)"
    by simp_all
  then have s: "np_sum ?xs = PosInf \<or> np_sum ?xs = NaN" by (rule special_not_finite)
  have "0 \<le> real (length ?xs)" by simp
  with s show ?thesis
    unfolding mape_percent_def np_mean_def by auto
qed

text \<open>
  Claim C3 as stated fails: on the actuals 0 and 1 with the predictions 1 and 1 the metrics
  of a walk-forward run are returned without any error, and the MAPE among them is
  \<^verbatim>\<open>inf\<close>, the value of the division by zero.
\<close>

theorem mape_zero_actual_counterexample:
  "wf_compute_metrics [1, 1] [0, 1] =
     Inr \<lparr>rmse = sqrt (1 / 2), mae = 1 / 2, r2 = Fin (- 1), mape = PosInf,
          directional_accuracy = Fin 0\<rparr>"
  by (simp add: eval_defs power2_eq_square)

text \<open>
  Claim C3, amended. The MAPE computation, \<open>mean(|yTrue - yPred| / |yTrue|) * 100\<close>, is not
  guarded. For predictions and actuals of equal nonzero length the metrics are returned
  without an error; the MAPE is that finite number when every actual value is nonzero, and
  it is \<^verbatim>\<open>inf\<close> or \<^verbatim>\<open>nan\<close> when some actual value is 0.
\<close>

theorem mape_unguarded:
  assumes "length predictions = length actuals" and "predictions \<noteq> []"
  shows "\<exists>m. wf_compute_metrics predictions actuals = Inr m \<and>
           mape m = mape_percent actuals predictions \<and>
           ((\<forall>t \<in> set actuals. t \<noteq> 0) \<longrightarrow>
              mape m = Fin (sum_list (map2 (\<lambda>t p. \<bar>t - p\<bar> / \<bar>t\<bar>) actuals predictions)
                            / real (length actuals) * 100)) \<and>
           ((\<exists>t \<in> set actuals. t = 0) \<longrightarrow> mape m = PosInf \<or> mape m = NaN)"
proof -
  obtain m where m: "wf_compute_metrics predictions actuals = Inr m"
    using wf_compute_metrics_ok[OF assms] by blast
  have mp: "mape m = mape_percent actuals predictions"
    using m by (auto simp: wf_compute_metrics_def split: sum.splits)
  have ne: "actuals \<noteq> []" using assms by auto
  show ?thesis
    using m mp mape_percent_nonzero[OF assms(1) ne] mape_percent_zero[OF assms(1)]
    by auto
qed

theorem mape_unguarded_witness:
  "length [1, 1 :: real] = length [0, 1 :: real] \<and> [1, 1 :: real] \<noteq> [] \<and>
   (\<exists>t \<in> set [0, 1 :: real]. t = 0) \<and>
   (\<exists>m. wf_compute_metrics [1, 1] [0, 1] = Inr m \<and> (mape m = PosInf \<or> mape m = NaN))"
proof -
  have h: "length [1, 1 :: real] = length [0, 1 :: real]" "[1, 1 :: real] \<noteq> []" by simp_all
  have z: "\<exists>t \<in> set [0, 1 :: real]. t = 0" by simp
  from mape_unguarded[OF h] z h show ?thesis by blast
qed

subsection \<open>R squared on constant actuals\<close>







subsection \<open>Series too short for the requested splits\<close>

lemma np_take_in_range:
  "\<forall>i \<in> set idx. i < length a \<Longrightarrow> np_take a idx = Inr (map ((!) a) idx)"
  by (induction idx) simp_all

lemma cv_fold_ok:
  assumes "length X = length y" and "train_idx \<noteq> []" and "test_idx \<noteq> []"
    and "\<forall>i \<in> set train_idx. i < length X" and "\<forall>i \<in> set test_idx. i < length X"
  shows "\<exists>row. cv_fold svr X y fold_no (train_idx, test_idx) = Inr row"
proof -
  let ?Xtr = "map ((!) X) train_idx" and ?ytr = "map ((!) y) train_idx"
  let ?Xte = "map ((!) X) test_idx" and ?yte = "map ((!) y) test_idx"
  have t: "np_take X train_idx = Inr ?Xtr" "np_take X test_idx = Inr ?Xte"
    "np_take y train_idx = Inr ?ytr" "np_take y test_idx = Inr ?yte"
    using assms by (simp_all add: np_take_in_range)
  have "?Xtr \<noteq> []" "length ?Xtr = length ?ytr" using assms(2) by simp_all
  from scaled_fit_predict_ok[OF this, of svr ?Xte]
  obtain y_pred where yp: "scaled_fit_predict svr ?Xtr ?ytr ?Xte = Inr y_pred"
    and len: "length y_pred = length ?yte"
    by (auto simp: MinMaxScaler_transform_def)
  have chk: "check_reg_targets ?yte y_pred"
    using len assms(3) by (simp add: check_reg_targets_def)
  show ?thesis
    by (simp add: cv_fold_def t yp mean_squared_error_def mean_absolute_error_def
        r2_score_def chk Let_def)
qed

lemma cv_loop_ok:
  assumes "\<And>s fold_no. s \<in> set splits \<Longrightarrow> \<exists>row. cv_fold svr X y fold_no s = Inr row"
  shows "\<exists>rows. cv_loop svr X y fold_no splits rows0 = Inr rows \<and>
           length rows = length rows0 + length splits"
  using assms
proof (induction splits arbitrary: fold_no rows0)
  case Nil
  then show ?case by simp
next
  case (Cons s splits)
  obtain row where row: "cv_fold svr X y fold_no s = Inr row"
    using Cons.prems[of s fold_no] by auto
  have "\<exists>rows. cv_loop svr X y (fold_no + 1) splits (rows0 @ [row]) = Inr rows \<and>
           length rows = length (rows0 @ [row]) + length splits"
    using Cons.prems by (intro Cons.IH) simp
  then show ?case by (auto simp: row)
qed

lemma TimeSeriesSplit_split_ok:
  assumes "2 \<le> n_splits" and "n_splits + 1 \<le> int n_samples"
  shows "\<exists>splits. TimeSeriesSplit_split n_splits n_samples = Inr splits \<and>
           length splits = nat n_splits \<and>
           (\<forall>s \<in> set splits. fst s \<noteq> [] \<and> snd s \<noteq> [] \<and>
              (\<forall>i \<in> set (fst s). i < n_samples) \<and> (\<forall>i \<in> set (snd s). i < n_samples))"
proof -
  define k where "k = nat n_splits"
  define ts where "ts = n_samples div (k + 1)"
  have k: "2 \<le> k" "k + 1 \<le> n_samples" "int k = n_splits"
    using assms by (simp_all add: k_def)
  have ts1: "1 \<le> ts"
    using k(2) by (simp add: ts_def div_greater_zero_iff Suc_le_eq)
  have "ts * (k + 1) \<le> n_samples"
    unfolding ts_def by (rule div_times_less_eq_dividend)
  then have tsk: "ts * k + ts \<le> n_samples" by (simp add: algebra_simps)
  have cnt: "(n_samples - (n_samples - k * ts) + ts - 1) div ts = k"
  proof -
    have "n_samples - (n_samples - k * ts) = k * ts"
      using tsk by (simp add: mult.commute)
    moreover have "(k * ts + ts - 1) div ts = k"
    proof -
      obtain t where t: "ts = Suc t" using ts1 by (cases ts) auto
      have e: "k * ts + ts - 1 = t + k * ts" by (simp add: t)
      have "ts \<noteq> 0" using ts1 by simp
      from div_mult_self1[OF this, of t k] have "(t + k * ts) div ts = k + t div ts" .
      moreover have "t div ts = 0" by (simp add: t)
      ultimately show ?thesis by (simp only: e)
    qed
    ultimately show ?thesis by simp
  qed
  let ?starts = "map (\<lambda>j. n_samples - k * ts + j * ts) [0..<k]"
  let ?f = "\<lambda>test_start. ([0..<min test_start n_samples],
                [min test_start n_samples..<min (test_start + ts) n_samples])"
  have c1: "\<not> n_splits \<le> 1" using assms(1) by simp
  have c2: "\<not> k + 1 > n_samples" using k(2) by simp
  have "ts * k < n_samples" using tsk ts1 by linarith
  then have "int (ts * k) < int n_samples" by (simp only: of_nat_less_iff)
  then have c3: "\<not> int n_samples - int (ts * k) \<le> 0" by linarith
  have r: "py_range_step (n_samples - k * ts) n_samples ts = Inr ?starts"
    unfolding py_range_step_def using ts1 by (simp only: cnt) simp
  have split: "TimeSeriesSplit_split n_splits n_samples = Inr (map ?f ?starts)"
    apply (unfold TimeSeriesSplit_split_def Let_def)
    apply (fold k_def)
    apply (fold ts_def)
    apply (simp only: c1 c2 c3 r if_False sum.case)
    done
  have props: "fst (?f st) \<noteq> [] \<and> snd (?f st) \<noteq> [] \<and>
      (\<forall>i \<in> set (fst (?f st)). i < n_samples) \<and> (\<forall>i \<in> set (snd (?f st)). i < n_samples)"
    if "st \<in> set ?starts" for st
  proof -
    from that obtain j where j: "j < k" "st = n_samples - k * ts + j * ts" by auto
    have "(j + 1) * ts \<le> k * ts" using j(1) by (intro mult_le_mono1) simp
    then have a: "st + ts \<le> n_samples" using j(2) tsk by (simp add: algebra_simps)
    have b: "1 \<le> st" using j(2) tsk ts1 by (simp add: algebra_simps)
    show ?thesis using a b ts1 by auto
  qed
  have all: "\<forall>s \<in> set (map ?f ?starts). fst s \<noteq> [] \<and> snd s \<noteq> [] \<and>
              (\<forall>i \<in> set (fst s). i < n_samples) \<and> (\<forall>i \<in> set (snd s). i < n_samples)"
  proof
    fix s assume "s \<in> set (map ?f ?starts)"
    then obtain st where st: "st \<in> set ?starts" and s: "s = ?f st" by auto
    from props[OF st] show "fst s \<noteq> [] \<and> snd s \<noteq> [] \<and>
              (\<forall>i \<in> set (fst s). i < n_samples) \<and> (\<forall>i \<in> set (snd s). i < n_samples)"
      unfolding s .
  qed
  have "length (map ?f ?starts) = nat n_splits" by (simp add: k_def)
  with split all show ?thesis by blast
qed

lemma cross_validation_ok:
  assumes "length X = length y" and "2 \<le> n_splits" and "n_splits + 1 \<le> int (length X)"
  shows "\<exists>rows. time_series_cross_validation svr X y n_splits = Inr rows \<and>
           length rows = nat n_splits"
proof -
  from TimeSeriesSplit_split_ok[OF assms(2,3)] obtain splits where
    sp: "TimeSeriesSplit_split n_splits (length X) = Inr splits"
    and len: "length splits = nat n_splits"
    and ok: "\<forall>s \<in> set splits. fst s \<noteq> [] \<and> snd s \<noteq> [] \<and>
              (\<forall>i \<in> set (fst s). i < length X) \<and> (\<forall>i \<in> set (snd s). i < length X)"
    by blast
  have "\<exists>row. cv_fold svr X y fold_no s = Inr row" if "s \<in> set splits" for s fold_no
    using cv_fold_ok[OF assms(1), of "fst s" "snd s" svr fold_no] ok that by simp
  from cv_loop_ok[of splits svr X y 1 "[]", OF this]
  show ?thesis by (auto simp: time_series_cross_validation_def sp len)
qed

lemma cross_validation_too_few:
  assumes "n_splits < 2 \<or> int (length X) < n_splits + 1"
  shows "time_series_cross_validation svr X y n_splits = Inl ValueError"
  using assms
  by (auto simp: time_series_cross_validation_def TimeSeriesSplit_split_def Let_def)

lemma walk_forward_window_too_large:
  assumes "int (length demand_data) \<le> window_size"
  shows "walk_forward_validation svr demand_data prices window_size = Inl ValueError"
  using assms
  by (simp add: walk_forward_validation_def py_range_def wf_compute_metrics_def
      mean_squared_error_def check_reg_targets_def)


text \<open>
  Claim C5 as stated fails: cross-validation with 5 splits on a 6-point series returns a
  table of 5 rows, one test point each, and no error.
\<close>

theorem cross_validation_six_points_counterexample:
  "time_series_cross_validation mean_regressor [1, 2, 3, 4, 5, 6] [2, 4, 6, 8, 10, 12] 5 =
     Inr [\<lparr>rmse = 2, mae = 2, r2 = NaN, mape = Fin 50, fold = 1, train_size = 1, test_size = 1\<rparr>,
          \<lparr>rmse = 3, mae = 3, r2 = NaN, mape = Fin 50, fold = 2, train_size = 2, test_size = 1\<rparr>,
          \<lparr>rmse = 4, mae = 4, r2 = NaN, mape = Fin 50, fold = 3, train_size = 3, test_size = 1\<rparr>,
          \<lparr>rmse = 5, mae = 5, r2 = NaN, mape = Fin 50, fold = 4, train_size = 4, test_size = 1\<rparr>,
          \<lparr>rmse = 6, mae = 6, r2 = NaN, mape = Fin 50, fold = 5, train_size = 5, test_size = 1\<rparr>]"
  by (simp add: eval_defs upt_rec)

text \<open>
  Claim C5, amended. Neither run has an insufficient-data error of its own. On series of
  equal length \<open>N\<close>, cross-validation fails, with the \<^verbatim>\<open>ValueError\<close> of the splitter, exactly
  when fewer than 2 splits are asked for or \<open>nSplits + 1 > N\<close>; otherwise it returns one row
  per split, so 5 splits on a 6-point series give 5 rows. Walk-forward validation with
  \<open>windowSize \<ge> N\<close> runs no step and then fails with the \<^verbatim>\<open>ValueError\<close> that the metric
  computation raises on empty arrays.
\<close>

theorem short_series_behaviour:
  "(length X = length y \<longrightarrow>
      (if n_splits < 2 \<or> int (length X) < n_splits + 1
       then time_series_cross_validation svr X y n_splits = Inl ValueError
       else \<exists>rows. time_series_cross_validation svr X y n_splits = Inr rows \<and>
              length rows = nat n_splits)) \<and>
   (int (length demand_data) \<le> window_size \<longrightarrow>
      walk_forward_validation svr demand_data prices window_size = Inl ValueError)"
proof (intro conjI impI)
  assume len: "length X = length y"
  show "if n_splits < 2 \<or> int (length X) < n_splits + 1
       then time_series_cross_validation svr X y n_splits = Inl ValueError
       else \<exists>rows. time_series_cross_validation svr X y n_splits = Inr rows \<and>
              length rows = nat n_splits"
  proof (cases "n_splits < 2 \<or> int (length X) < n_splits + 1")
    case True
    then show ?thesis using cross_validation_too_few[OF True] by simp
  next
    case False
    then have "2 \<le> n_splits" "n_splits + 1 \<le> int (length X)" by simp_all
    from cross_validation_ok[OF len this] False show ?thesis by simp
  qed
next
  assume "int (length demand_data) \<le> window_size"
  then show "walk_forward_validation svr demand_data prices window_size = Inl ValueError"
    by (rule walk_forward_window_too_large)
qed

theorem short_series_behaviour_witness:
  "length [1, 2, 3, 4, 5, 6 :: real] = length [2, 4, 6, 8, 10, 12 :: real] \<and>
   \<not> ((5 :: int) < 2 \<or> int (length [1, 2, 3, 4, 5, 6 :: real]) < 5 + 1) \<and>
   int (length [1, 2, 3 :: real]) \<le> 3 \<and>
   (\<exists>rows. time_series_cross_validation mean_regressor [1, 2, 3, 4, 5, 6]
              [2, 4, 6, 8, 10, 12] 5 = Inr rows \<and> length rows = nat 5) \<and>
   walk_forward_validation mean_regressor [1, 2, 3] [2, 4, 6] 3 = Inl ValueError"
proof -
  have h: "length [1, 2, 3, 4, 5, 6 :: real] = length [2, 4, 6, 8, 10, 12 :: real]" by simp
  have c: "\<not> ((5 :: int) < 2 \<or> int (length [1, 2, 3, 4, 5, 6 :: real]) < 5 + 1)" by simp
  have w: "int (length [1, 2, 3 :: real]) \<le> 3" by simp
  note T = short_series_behaviour[where X = "[1, 2, 3, 4, 5, 6]" and y = "[2, 4, 6, 8, 10, 12]"
      and n_splits = 5 and svr = mean_regressor and demand_data = "[1, 2, 3]"
      and prices = "[2, 4, 6]" and window_size = 3]
  from mp[OF T[THEN conjunct1] h] c
  have a: "\<exists>rows. time_series_cross_validation mean_regressor [1, 2, 3, 4, 5, 6]
              [2, 4, 6, 8, 10, 12] 5 = Inr rows \<and> length rows = nat 5"
    by (simp only: if_False)
  from mp[OF T[THEN conjunct2] w]
  have b: "walk_forward_validation mean_regressor [1, 2, 3] [2, 4, 6] 3 = Inl ValueError" .
  from h c w a b show ?thesis by (intro conjI)
qed

end
